theory Spec2Isabelle
  imports Main "HOL-Library.Word"
begin

unbundle bit_operations_syntax

section \<open>Machine types and array reads\<close>

text \<open>
  The header is written for Arduino boards. \<open>uint8_t\<close> and \<open>unsigned char\<close> are 8-bit
  words and \<open>unsigned short\<close> is a 16-bit word. \<open>int\<close> is the 32-bit two's-complement
  \<open>int\<close> of the ARM boards: a value of type \<open>int\<close> is a mathematical integer, and
  an addition or a left shift whose result leaves the range of \<open>int\<close> is the fault
  \<open>SignedOverflow\<close>, since C++ leaves it undefined. An operand of type \<open>unsigned char\<close>
  or \<open>unsigned short\<close> is promoted to \<open>int\<close> with \<open>uint\<close>, and an \<open>int\<close> assigned to
  such a variable is converted with \<open>word_of_int\<close>.
\<close>

type_synonym u8 = "8 word"
type_synonym u16 = "16 word"

datatype fault = OutOfBounds | SignedOverflow

definition INT_MAX :: int where
  "INT_MAX = 2147483647"

definition INT_MIN :: int where
  "INT_MIN = - 2147483648"

definition int_add :: "int \<Rightarrow> int \<Rightarrow> fault + int" where
  "int_add a b = (if INT_MIN \<le> a + b \<and> a + b \<le> INT_MAX then Inr (a + b) else Inl SignedOverflow)"

definition int_shl :: "int \<Rightarrow> nat \<Rightarrow> fault + int" where
  "int_shl a k = (if 0 \<le> a \<and> push_bit k a \<le> INT_MAX then Inr (push_bit k a) else Inl SignedOverflow)"

text \<open>
  A buffer passed as a pointer is the list of the bytes that the caller owns from that
  pointer on. Reading an element the list does not have is the fault \<open>OutOfBounds\<close>.
\<close>

definition read_at :: "'a list \<Rightarrow> int \<Rightarrow> fault + 'a" where
  "read_at a k = (if 0 \<le> k \<and> k < int (length a) then Inr (a ! nat k) else Inl OutOfBounds)"

section \<open>Protocol utilities\<close>

text \<open>
  The enumerators of \<open>enum dynamixelV2\<close> are integer constants; several of them share
  the value 5. \<open>readInstruction\<close> has no initialiser, so it is one more than the
  enumerator before it.
\<close>

definition minPacketLenght :: int where
  "minPacketLenght = 12"

definition minInstructionLength :: int where
  "minInstructionLength = 5"

definition minResponseLength :: int where
  "minResponseLength = 5"

definition writeInstruction :: int where
  "writeInstruction = 0x03"

definition readInstruction :: int where
  "readInstruction = writeInstruction + 1"

definition statusInstruction :: int where
  "statusInstruction = 0x55"

definition alertBit :: int where
  "alertBit = 128"

definition lengthLSBPos :: int where
  "lengthLSBPos = 5"

definition lengthMSBPos :: int where
  "lengthMSBPos = 6"

definition instructionPos :: int where
  "instructionPos = 7"

definition responseParameterStart :: int where
  "responseParameterStart = 8"

definition v1Header :: "u8 list" where
  "v1Header = [0xFF, 0xFF]"

definition v2Header :: "u8 list" where
  "v2Header = [0xFF, 0xFF, 0xFD, 0x00]"

section \<open>Data structures\<close>

subsection \<open>\<open>DynamixelAccessData\<close>\<close>

text \<open>
  The member \<open>length\<close> is the field \<open>length'\<close>. The constructor initialises
  \<open>address\<close> with its first two arguments and \<open>length\<close> with the third; its body is
  empty.
\<close>

record DynamixelAccessData =
  address :: "u8 list"
  length' :: u8

definition DynamixelAccessData_ctor :: "u8 \<Rightarrow> u8 \<Rightarrow> u8 \<Rightarrow> DynamixelAccessData" where
  "DynamixelAccessData_ctor addressLSB addressMSB size' =
     \<lparr>address = [addressLSB, addressMSB], length' = size'\<rparr>"

text \<open>
  Both members are \<open>const\<close>: no assignment to either of them compiles, and the copy
  assignment of the struct is deleted. The statements that an object admits after its
  construction are the reads of \<open>address[k]\<close> and of \<open>length\<close>. \<open>access_exec\<close> runs one
  statement and returns the object after it with the value read.
\<close>

datatype access_stmt = ReadAddress int | ReadLength

fun access_exec :: "DynamixelAccessData \<Rightarrow> access_stmt \<Rightarrow> DynamixelAccessData \<times> (fault + u8)" where
  "access_exec d (ReadAddress k) = (d, read_at (address d) k)"
| "access_exec d ReadLength = (d, Inr (length' d))"

fun access_run :: "DynamixelAccessData \<Rightarrow> access_stmt list \<Rightarrow> DynamixelAccessData" where
  "access_run d [] = d"
| "access_run d (s # ss) = access_run (fst (access_exec d s)) ss"

subsection \<open>\<open>DynamixelMotorData\<close>\<close>

text \<open>
  A member of type \<open>const DynamixelAccessData&\<close> is the address of the descriptor it is
  bound to. The three \<open>float\<close> members are only stored, so their type is the parameter
  \<open>'f\<close>. The member \<open>id\<close> is the field \<open>id'\<close>.
\<close>

type_synonym addr = nat

record 'f DynamixelMotorData =
  motorID :: u8
  id' :: addr
  led :: addr
  torqueEnable :: addr
  currentTorque :: addr
  goalAngle :: addr
  currentAngle :: addr
  goalVelocity :: addr
  currentVelocity :: addr
  valueToTorque :: 'f
  valueToAngle :: 'f
  valueToVelocity :: 'f

definition DynamixelMotorData_ctor ::
  "u8 \<Rightarrow> addr \<Rightarrow> addr \<Rightarrow> addr \<Rightarrow> addr \<Rightarrow> addr \<Rightarrow> addr \<Rightarrow> addr \<Rightarrow> addr \<Rightarrow> 'f \<Rightarrow> 'f \<Rightarrow> 'f
     \<Rightarrow> 'f DynamixelMotorData" where
  "DynamixelMotorData_ctor newID idAccess ledAccess torqueEnAccess currentTorqueAccess
     goalAngleAccess currentAngleAccess goalVelocityAccess currentVelocityAccess
     torqueConvertFactor angleConvertFactor velocityConvertFactor =
     \<lparr>motorID = newID, id' = idAccess, led = ledAccess,
      torqueEnable = torqueEnAccess, currentTorque = currentTorqueAccess,
      goalAngle = goalAngleAccess, currentAngle = currentAngleAccess,
      goalVelocity = goalVelocityAccess, currentVelocity = currentVelocityAccess,
      valueToTorque = torqueConvertFactor, valueToAngle = angleConvertFactor,
      valueToVelocity = velocityConvertFactor\<rparr>"

text \<open>
  \<open>motorID\<close> is the one member without \<open>const\<close>, and it is public. A reference cannot
  be bound again and a \<open>const float\<close> cannot be assigned, and with such members the copy
  assignment of the struct is deleted. The header declares no operation on the struct
  besides its constructor.
\<close>

text \<open>
  Modelled from the spec: the "set ID" operation of the motor driver, which is not in
  the header. The specification says that it changes the identifier and "must also
  update the stored value": it stores the new identifier in \<open>motorID\<close>.
\<close>

definition setID :: "'f DynamixelMotorData \<Rightarrow> u8 \<Rightarrow> 'f DynamixelMotorData" where
  "setID m newID = m\<lparr>motorID := newID\<rparr>"

text \<open>
  The statements that an object \<open>m\<close> admits after its construction:
  \<^item> \<open>SetID v\<close>, the call of the set-ID operation;
  \<^item> \<open>AssignMotorID v\<close>, the assignment \<open>m.motorID = v\<close> written anywhere the object is
    in reach, which compiles since the member is public and not \<open>const\<close>;
  \<^item> \<open>StoreMotorID v\<close>, the store \<open>*p = v\<close> through \<open>uint8_t* p = &m.motorID\<close>, or the
    same through a reference bound to the member;
  \<^item> \<open>ReadMember x\<close>, the read of a member.
  No assignment to another member and no store through a pointer to one compiles,
  since the address of a \<open>const\<close> member is a pointer to \<open>const\<close>.
\<close>

datatype motor_member =
  MotorID | Id | Led | TorqueEnable | CurrentTorque | GoalAngle | CurrentAngle
  | GoalVelocity | CurrentVelocity | ValueToTorque | ValueToAngle | ValueToVelocity

datatype motor_stmt = SetID u8 | AssignMotorID u8 | StoreMotorID u8 | ReadMember motor_member

fun is_setID :: "motor_stmt \<Rightarrow> bool" where
  "is_setID (SetID v) = True"
| "is_setID (AssignMotorID v) = False"
| "is_setID (StoreMotorID v) = False"
| "is_setID (ReadMember x) = False"

fun writes_motorID :: "motor_stmt \<Rightarrow> bool" where
  "writes_motorID (SetID v) = True"
| "writes_motorID (AssignMotorID v) = True"
| "writes_motorID (StoreMotorID v) = True"
| "writes_motorID (ReadMember x) = False"

fun motor_exec :: "'f DynamixelMotorData \<Rightarrow> motor_stmt \<Rightarrow> 'f DynamixelMotorData" where
  "motor_exec m (SetID v) = setID m v"
| "motor_exec m (AssignMotorID v) = m\<lparr>motorID := v\<rparr>"
| "motor_exec m (StoreMotorID v) = m\<lparr>motorID := v\<rparr>"
| "motor_exec m (ReadMember x) = m"

fun motor_run :: "'f DynamixelMotorData \<Rightarrow> motor_stmt list \<Rightarrow> 'f DynamixelMotorData" where
  "motor_run m [] = m"
| "motor_run m (s # ss) = motor_run (motor_exec m s) ss"

subsection \<open>\<open>DynamixelPacket\<close>\<close>

text \<open>
  The member \<open>packet\<close> is a pointer: the address of an array in the free store, or 0 for
  the null pointer. Both constructors copy their arguments into the members and have an
  empty body; the one with two arguments sets \<open>responseSize\<close> to 0.
\<close>

record DynamixelPacket =
  packet :: addr
  packetSize :: u8
  responseSize :: u8

definition DynamixelPacket_ctor2 :: "addr \<Rightarrow> u8 \<Rightarrow> DynamixelPacket" where
  "DynamixelPacket_ctor2 p len = \<lparr>packet = p, packetSize = len, responseSize = 0\<rparr>"

definition DynamixelPacket_ctor3 :: "addr \<Rightarrow> u8 \<Rightarrow> u8 \<Rightarrow> DynamixelPacket" where
  "DynamixelPacket_ctor3 p len responseLength =
     \<lparr>packet = p, packetSize = len, responseSize = responseLength\<rparr>"

text \<open>
  The free store maps the address of every live array made by \<open>new[]\<close> to its bytes.
  \<open>delete[]\<close> of the null pointer does nothing, \<open>delete[]\<close> of a live array removes it,
  and \<open>delete[]\<close> of any other address is undefined: the fault \<open>InvalidDelete\<close>.
\<close>

type_synonym free_store = "addr \<rightharpoonup> u8 list"

datatype store_fault = InvalidDelete

definition delete_array :: "free_store \<Rightarrow> addr \<Rightarrow> store_fault + free_store" where
  "delete_array h a =
     (if a = 0 then Inr h
      else case h a of None \<Rightarrow> Inl InvalidDelete | Some bytes \<Rightarrow> Inr (h(a := None)))"

text \<open>The destructor \<open>~DynamixelPacket() { delete[] packet; }\<close>.\<close>

definition DynamixelPacket_dtor :: "free_store \<Rightarrow> DynamixelPacket \<Rightarrow> store_fault + free_store" where
  "DynamixelPacket_dtor h pk = delete_array h (packet pk)"

text \<open>
  The struct declares a destructor and no copy constructor, so the language supplies
  the copy constructor that copies member by member.
\<close>

definition DynamixelPacket_copy :: "DynamixelPacket \<Rightarrow> DynamixelPacket" where
  "DynamixelPacket_copy other =
     \<lparr>packet = packet other, packetSize = packetSize other, responseSize = responseSize other\<rparr>"

section \<open>Error detection functions\<close>

subsection \<open>The table \<open>crc_table\<close>\<close>

definition crc_table :: "u16 list" where
  "crc_table =
   [0x0000, 0x8005, 0x800F, 0x000A, 0x801B, 0x001E, 0x0014, 0x8011,
    0x8033, 0x0036, 0x003C, 0x8039, 0x0028, 0x802D, 0x8027, 0x0022,
    0x8063, 0x0066, 0x006C, 0x8069, 0x0078, 0x807D, 0x8077, 0x0072,
    0x0050, 0x8055, 0x805F, 0x005A, 0x804B, 0x004E, 0x0044, 0x8041,
    0x80C3, 0x00C6, 0x00CC, 0x80C9, 0x00D8, 0x80DD, 0x80D7, 0x00D2,
    0x00F0, 0x80F5, 0x80FF, 0x00FA, 0x80EB, 0x00EE, 0x00E4, 0x80E1,
    0x00A0, 0x80A5, 0x80AF, 0x00AA, 0x80BB, 0x00BE, 0x00B4, 0x80B1,
    0x8093, 0x0096, 0x009C, 0x8099, 0x0088, 0x808D, 0x8087, 0x0082,
    0x8183, 0x0186, 0x018C, 0x8189, 0x0198, 0x819D, 0x8197, 0x0192,
    0x01B0, 0x81B5, 0x81BF, 0x01BA, 0x81AB, 0x01AE, 0x01A4, 0x81A1,
    0x01E0, 0x81E5, 0x81EF, 0x01EA, 0x81FB, 0x01FE, 0x01F4, 0x81F1,
    0x81D3, 0x01D6, 0x01DC, 0x81D9, 0x01C8, 0x81CD, 0x81C7, 0x01C2,
    0x0140, 0x8145, 0x814F, 0x014A, 0x815B, 0x015E, 0x0154, 0x8151,
    0x8173, 0x0176, 0x017C, 0x8179, 0x0168, 0x816D, 0x8167, 0x0162,
    0x8123, 0x0126, 0x012C, 0x8129, 0x0138, 0x813D, 0x8137, 0x0132,
    0x0110, 0x8115, 0x811F, 0x011A, 0x810B, 0x010E, 0x0104, 0x8101,
    0x8303, 0x0306, 0x030C, 0x8309, 0x0318, 0x831D, 0x8317, 0x0312,
    0x0330, 0x8335, 0x833F, 0x033A, 0x832B, 0x032E, 0x0324, 0x8321,
    0x0360, 0x8365, 0x836F, 0x036A, 0x837B, 0x037E, 0x0374, 0x8371,
    0x8353, 0x0356, 0x035C, 0x8359, 0x0348, 0x834D, 0x8347, 0x0342,
    0x03C0, 0x83C5, 0x83CF, 0x03CA, 0x83DB, 0x03DE, 0x03D4, 0x83D1,
    0x83F3, 0x03F6, 0x03FC, 0x83F9, 0x03E8, 0x83ED, 0x83E7, 0x03E2,
    0x83A3, 0x03A6, 0x03AC, 0x83A9, 0x03B8, 0x83BD, 0x83B7, 0x03B2,
    0x0390, 0x8395, 0x839F, 0x039A, 0x838B, 0x038E, 0x0384, 0x8381,
    0x0280, 0x8285, 0x828F, 0x028A, 0x829B, 0x029E, 0x0294, 0x8291,
    0x82B3, 0x02B6, 0x02BC, 0x82B9, 0x02A8, 0x82AD, 0x82A7, 0x02A2,
    0x82E3, 0x02E6, 0x02EC, 0x82E9, 0x02F8, 0x82FD, 0x82F7, 0x02F2,
    0x02D0, 0x82D5, 0x82DF, 0x02DA, 0x82CB, 0x02CE, 0x02C4, 0x82C1,
    0x8243, 0x0246, 0x024C, 0x8249, 0x0258, 0x825D, 0x8257, 0x0252,
    0x0270, 0x8275, 0x827F, 0x027A, 0x826B, 0x026E, 0x0264, 0x8261,
    0x0220, 0x8225, 0x822F, 0x022A, 0x823B, 0x023E, 0x0234, 0x8231,
    0x8213, 0x0216, 0x021C, 0x8219, 0x0208, 0x820D, 0x8207, 0x0202]"

subsection \<open>\<open>v1Checksum\<close>\<close>

text \<open>
  The loop \<open>for(int i=0;i<packet_size;i++) tempSum += packet_to_check[i];\<close> with its two
  \<open>int\<close> variables as arguments; the result is \<open>tempSum\<close> when the loop is left.
\<close>

function v1_loop :: "u8 list \<Rightarrow> u16 \<Rightarrow> int \<Rightarrow> int \<Rightarrow> fault + int" where
  "v1_loop packet_to_check packet_size i tempSum =
     (if i < uint packet_size then
        (case read_at packet_to_check i of
           Inl e \<Rightarrow> Inl e
         | Inr b \<Rightarrow>
            (case int_add tempSum (uint b) of
               Inl e \<Rightarrow> Inl e
             | Inr s \<Rightarrow>
                (case int_add i 1 of
                   Inl e \<Rightarrow> Inl e
                 | Inr i' \<Rightarrow> v1_loop packet_to_check packet_size i' s)))
      else Inr tempSum)"
  by pat_completeness auto
termination
  by (relation "measure (\<lambda>(p, n, i, s). nat (uint n - i))")
     (auto simp: int_add_def split: if_splits)

declare v1_loop.simps [simp del]

text \<open>\<open>return(~tempSum & 0xFF);\<close> converted to the \<open>unsigned char\<close> result.\<close>

definition v1Checksum :: "u8 list \<Rightarrow> u16 \<Rightarrow> fault + u8" where
  "v1Checksum packet_to_check packet_size =
     (case v1_loop packet_to_check packet_size 0 0 of
        Inl e \<Rightarrow> Inl e
      | Inr tempSum \<Rightarrow> Inr (word_of_int (NOT tempSum AND 0xFF)))"

text \<open>The sum of a byte sequence, as the specification of the checksum uses it.\<close>

definition byte_sum :: "u8 list \<Rightarrow> int" where
  "byte_sum s = sum_list (map uint s)"

subsection \<open>\<open>crc_compute\<close>\<close>

text \<open>
  The loop \<open>for(j = 0; j < packet_size; j++)\<close> with \<open>j\<close> and \<open>crc_accum\<close> as arguments.
  In the body, \<open>crc_accum\<close>, \<open>packet_to_check[j]\<close> and \<open>crc_table[i]\<close> are promoted to
  \<open>int\<close> before the shifts and the exclusive or, and each assignment converts the
  \<open>int\<close> back to \<open>unsigned short\<close>.
\<close>

function crc_loop :: "u8 list \<Rightarrow> u16 \<Rightarrow> u16 \<Rightarrow> u16 \<Rightarrow> fault + u16" where
  "crc_loop packet_to_check packet_size j crc_accum =
     (if j < packet_size then
        (case read_at packet_to_check (uint j) of
           Inl e \<Rightarrow> Inl e
         | Inr b \<Rightarrow>
            (let i = (word_of_int ((drop_bit 8 (uint crc_accum) XOR uint b) AND 0xFF) :: u16)
             in case int_shl (uint crc_accum) 8 of
                  Inl e \<Rightarrow> Inl e
                | Inr shifted \<Rightarrow>
                   (case read_at crc_table (uint i) of
                      Inl e \<Rightarrow> Inl e
                    | Inr t \<Rightarrow>
                        crc_loop packet_to_check packet_size (j + 1)
                          (word_of_int (shifted XOR uint t)))))
      else Inr crc_accum)"
  by pat_completeness auto
termination
proof (relation "measure (\<lambda>(p, n, j, a). unat n - unat j)")
  show "wf (measure (\<lambda>(p, n, j, a). unat n - unat j))"
    by simp
next
  fix packet_to_check :: "u8 list" and packet_size j crc_accum :: u16
  assume less: "j < packet_size"
  then have below: "unat j < unat packet_size"
    by (simp add: word_less_nat_alt)
  moreover have "unat packet_size < 2 ^ 16"
    using unsigned_less [where w = packet_size and 'a = nat] by simp
  ultimately have "unat (j + 1) = Suc (unat j)"
    by (simp add: unat_word_ariths)
  with below show "((packet_to_check, packet_size, j + 1, crc_accum'), (packet_to_check, packet_size, j, crc_accum))
      \<in> measure (\<lambda>(p, n, j, a). unat n - unat j)" for crc_accum' :: u16
    by simp
qed

declare crc_loop.simps [simp del]

definition crc_compute :: "u8 list \<Rightarrow> u16 \<Rightarrow> fault + u16" where
  "crc_compute packet_to_check packet_size = crc_loop packet_to_check packet_size 0 0"

text \<open>
  The recurrence as the specification words it, on a 16-bit accumulator: for a byte
  \<open>b\<close>, the index is \<open>((accumulator >> 8) ^ b) & 0xFF\<close> and the next accumulator is
  \<open>(accumulator << 8) ^ crc_table[i]\<close>, truncated to 16 bits. It starts from 0.
\<close>

definition crc_update :: "u16 \<Rightarrow> u8 \<Rightarrow> u16" where
  "crc_update accumulator b =
     (let i = (drop_bit 8 accumulator XOR ucast b) AND 0xFF
      in push_bit 8 accumulator XOR crc_table ! unat i)"

definition crc_recurrence :: "u8 list \<Rightarrow> u16" where
  "crc_recurrence bytes = foldl crc_update 0 bytes"

text \<open>
  The table entry of an index, generated from the polynomial 0x8005 with the most
  significant bit first: one round shifts the 16-bit value left by one and, when the bit
  shifted out was 1, combines it with 0x8005 by exclusive or; the entry is eight rounds
  from \<open>i << 8\<close>.
\<close>

definition crc_round :: "u16 \<Rightarrow> u16" where
  "crc_round x = (if bit x 15 then push_bit 1 x XOR 0x8005 else push_bit 1 x)"

definition crc_entry :: "nat \<Rightarrow> u16" where
  "crc_entry i = (crc_round ^^ 8) (push_bit 8 (of_nat i))"


section \<open>Array reads and arithmetic facts\<close>

lemma read_at_in_range: "k < length a \<Longrightarrow> read_at a (int k) = Inr (a ! k)"
  by (simp add: read_at_def)

lemma uint_byte_le: "uint (b :: u8) \<le> 255"
  using uint_lt2p [of b] by simp

lemma uint_size_le: "uint (n :: u16) \<le> 65535"
  using uint_lt2p [of n] by simp

lemma unat_succ_below: "(j :: u16) < n \<Longrightarrow> unat (j + 1) = Suc (unat j)"
proof -
  assume "j < n"
  then have "unat j < unat n"
    by (simp add: word_less_nat_alt)
  moreover have "unat n < 2 ^ 16"
    using unsigned_less [where w = n and 'a = nat] by simp
  ultimately show ?thesis
    by (simp add: unat_word_ariths)
qed

lemma not_and_255: "NOT (x :: int) AND 0xFF = 255 - x mod 256"
proof -
  have "NOT x AND mask 8 = mask 8 - take_bit 8 x"
    by (simp add: take_bit_not_eq_mask_diff flip: take_bit_eq_mask)
  then show ?thesis
    by (simp add: mask_eq_exp_minus_1 take_bit_eq_mod)
qed

lemma uint_complement: "uint (word_of_int (NOT x AND 0xFF) :: u8) = 255 - x mod 256"
proof -
  have "0 \<le> 255 - x mod 256" "255 - x mod 256 < 256"
    by (simp_all add: pos_mod_bound pos_mod_sign)
  then have "(255 - x mod 256) mod 256 = 255 - x mod 256"
    by simp
  then show ?thesis
    by (simp only: not_and_255 uint_word_of_int) simp
qed

lemma complement_sum: "(x + (255 - x mod 256)) mod 256 = (255 :: int)"
proof -
  have "x + (255 - x mod 256) = 255 + x div 256 * 256"
    using div_mult_mod_eq [of x 256] by linarith
  then have "(x + (255 - x mod 256)) mod 256 = (255 + x div 256 * 256) mod 256"
    by (rule arg_cong)
  also have "\<dots> = 255"
    by simp
  finally show ?thesis .
qed

section \<open>The loop of \<open>v1Checksum\<close>\<close>

lemma byte_sum_Nil: "byte_sum [] = 0"
  by (simp add: byte_sum_def)

lemma byte_sum_Cons: "byte_sum (b # s) = uint b + byte_sum s"
  by (simp add: byte_sum_def)

lemma byte_sum_append: "byte_sum (s @ t) = byte_sum s + byte_sum t"
  by (simp add: byte_sum_def)

lemma byte_sum_nonneg: "0 \<le> byte_sum s"
  by (induction s) (simp_all add: byte_sum_Nil byte_sum_Cons)

lemma byte_sum_le: "byte_sum s \<le> 255 * int (length s)"
proof (induction s)
  case Nil
  show ?case by (simp add: byte_sum_Nil)
next
  case (Cons b s)
  then show ?case
    using uint_byte_le [of b] by (simp add: byte_sum_Cons)
qed

text \<open>
  The bytes that \<open>packet_size\<close> can count never exceed the range of the accumulator:
  at most 65535 bytes of at most 255 each.
\<close>

lemma byte_sum_fits:
  "byte_sum (take (unat (packet_size :: u16)) p) \<le> INT_MAX"
proof -
  have "length (take (unat packet_size) p) \<le> unat packet_size"
    by simp
  moreover have "unat packet_size < 2 ^ 16"
    using unsigned_less [where w = packet_size and 'a = nat] by simp
  ultimately have "int (length (take (unat packet_size) p)) \<le> 65535"
    by simp
  then show ?thesis
    using byte_sum_le [of "take (unat packet_size) p"] by (simp add: INT_MAX_def)
qed

lemma v1_loop_exit: "\<not> i < uint packet_size \<Longrightarrow> v1_loop p packet_size i s = Inr s"
  by (subst v1_loop.simps) simp

lemma v1_loop_step:
  assumes "i < uint packet_size" and "0 \<le> i" and "nat i < length p"
    and "0 \<le> s" and "s \<le> 255 * i"
  shows "v1_loop p packet_size i s = v1_loop p packet_size (i + 1) (s + uint (p ! nat i))"
proof -
  have rd: "read_at p i = Inr (p ! nat i)"
    using assms(2,3) read_at_in_range [of "nat i" p] by simp
  have "i \<le> 65535"
    using assms(1) uint_size_le [of packet_size] by simp
  then have a1: "int_add i 1 = Inr (i + 1)"
    using assms(2) by (simp add: int_add_def INT_MAX_def INT_MIN_def)
  have "s + uint (p ! nat i) \<le> 255 * i + 255"
    using assms(5) uint_byte_le [of "p ! nat i"] by simp
  with \<open>i \<le> 65535\<close> have "s + uint (p ! nat i) \<le> INT_MAX"
    by (simp add: INT_MAX_def)
  moreover have "0 \<le> s + uint (p ! nat i)"
    using assms(4) by simp
  ultimately have a2: "int_add s (uint (p ! nat i)) = Inr (s + uint (p ! nat i))"
    by (simp add: int_add_def INT_MIN_def)
  show ?thesis
    using assms(1) by (subst v1_loop.simps) (simp add: rd a1 a2)
qed

lemma v1_loop_sum:
  "unat packet_size \<le> length p \<Longrightarrow> 0 \<le> i \<Longrightarrow> i \<le> uint packet_size \<Longrightarrow> 0 \<le> s \<Longrightarrow> s \<le> 255 * i \<Longrightarrow>
   v1_loop p packet_size i s = Inr (s + byte_sum (drop (nat i) (take (unat packet_size) p)))"
proof (induction "nat (uint packet_size - i)" arbitrary: i s)
  case 0
  then have "i = uint packet_size"
    by simp
  then have "nat i = unat packet_size"
    by simp
  then show ?case
    using \<open>i = uint packet_size\<close> by (simp add: v1_loop_exit byte_sum_Nil)
next
  case (Suc k)
  then have lt: "i < uint packet_size"
    by simp
  then have "nat i < unat packet_size"
    using Suc.prems(2) by (simp add: nat_less_iff)
  with Suc.prems(1) have inb: "nat i < length p"
    by simp
  have step: "v1_loop p packet_size i s = v1_loop p packet_size (i + 1) (s + uint (p ! nat i))"
    using lt Suc.prems(2) inb Suc.prems(4,5) by (rule v1_loop_step)
  have k: "k = nat (uint packet_size - (i + 1))"
    using Suc.hyps(2) by simp
  have s1: "0 \<le> s + uint (p ! nat i)"
    using Suc.prems(4) by simp
  have s2: "s + uint (p ! nat i) \<le> 255 * (i + 1)"
    using Suc.prems(5) uint_byte_le [of "p ! nat i"] by simp
  have ih: "v1_loop p packet_size (i + 1) (s + uint (p ! nat i))
      = Inr (s + uint (p ! nat i) + byte_sum (drop (nat (i + 1)) (take (unat packet_size) p)))"
    using Suc.hyps(1) [OF k Suc.prems(1) _ _ s1 s2] Suc.prems(2) lt by simp
  have "drop (nat i) (take (unat packet_size) p)
      = p ! nat i # drop (Suc (nat i)) (take (unat packet_size) p)"
    using \<open>nat i < unat packet_size\<close> inb by (simp add: Cons_nth_drop_Suc [symmetric])
  moreover have "nat (i + 1) = Suc (nat i)"
    using Suc.prems(2) by simp
  ultimately show ?case
    using step ih by (simp add: byte_sum_Cons)
qed

lemma v1_loop_total:
  "unat packet_size \<le> length p \<Longrightarrow>
   v1_loop p packet_size 0 0 = Inr (byte_sum (take (unat packet_size) p))"
  using v1_loop_sum [of packet_size p 0 0] by simp

lemma v1Checksum_value:
  "unat packet_size \<le> length p \<Longrightarrow>
   v1Checksum p packet_size = Inr (word_of_int (NOT (byte_sum (take (unat packet_size) p)) AND 0xFF))"
  by (simp add: v1Checksum_def v1_loop_total)

section \<open>The loop of \<open>crc_compute\<close>\<close>

lemma length_crc_table: "length crc_table = 256"
  by (simp add: crc_table_def)

text \<open>
  The promotion to \<open>int\<close> changes neither the index nor the next accumulator, and the
  shift of a promoted \<open>unsigned short\<close> stays in the range of \<open>int\<close>.
\<close>

lemma promoted_index:
  "(word_of_int ((drop_bit 8 (uint (a :: u16)) XOR uint (b :: u8)) AND 0xFF) :: u16)
     = (drop_bit 8 a XOR ucast b) AND 0xFF"
proof -
  have m: "(0xFF :: int) = mask 8" "(0xFF :: u16) = mask 8"
    by (simp_all add: mask_eq_exp_minus_1)
  show ?thesis
    unfolding m by (rule bit_word_eqI) (auto simp: bit_simps)
qed

lemma promoted_shift:
  "(word_of_int (push_bit 8 (uint (a :: u16)) XOR uint (t :: u16)) :: u16) = push_bit 8 a XOR t"
  by (rule bit_word_eqI) (auto simp: bit_simps)

lemma shift_fits: "int_shl (uint (a :: u16)) 8 = Inr (push_bit 8 (uint a))"
proof -
  have "uint a < 65536"
    using uint_lt2p [of a] by simp
  then have "push_bit 8 (uint a) \<le> INT_MAX"
    by (simp add: push_bit_eq_mult INT_MAX_def)
  then show ?thesis
    by (simp add: int_shl_def)
qed

lemma index_in_table: "uint ((x :: u16) AND 0xFF) < 256"
proof -
  have "x AND 0xFF \<le> 0xFF"
    by (rule word_and_le1)
  then show ?thesis
    by (simp add: word_le_def)
qed

lemma read_at_table:
  "read_at crc_table (uint ((x :: u16) AND 0xFF)) = Inr (crc_table ! unat (x AND 0xFF))"
  using index_in_table [of x] by (simp add: read_at_def length_crc_table)

lemma crc_body:
  fixes a :: u16 and b :: u8
  defines "i \<equiv> (word_of_int ((drop_bit 8 (uint a) XOR uint b) AND 0xFF) :: u16)"
  shows "read_at crc_table (uint i) = Inr (crc_table ! unat i)"
    and "(word_of_int (push_bit 8 (uint a) XOR uint (crc_table ! unat i)) :: u16) = crc_update a b"
proof -
  have i: "i = (drop_bit 8 a XOR ucast b) AND 0xFF"
    unfolding i_def by (rule promoted_index)
  show "read_at crc_table (uint i) = Inr (crc_table ! unat i)"
    unfolding i by (rule read_at_table)
  show "(word_of_int (push_bit 8 (uint a) XOR uint (crc_table ! unat i)) :: u16) = crc_update a b"
    unfolding i by (simp only: promoted_shift crc_update_def Let_def)
qed

lemma crc_loop_exit: "\<not> j < packet_size \<Longrightarrow> crc_loop p packet_size j acc = Inr acc"
  by (subst crc_loop.simps) simp

lemma crc_loop_step:
  assumes "j < packet_size" and "unat j < length p"
  shows "crc_loop p packet_size j acc = crc_loop p packet_size (j + 1) (crc_update acc (p ! unat j))"
proof -
  have "read_at p (uint j) = Inr (p ! unat j)"
    using assms(2) read_at_in_range [of "unat j" p] by simp
  then show ?thesis
    using assms(1)
    by (subst crc_loop.simps) (simp add: Let_def shift_fits crc_body)
qed

lemma crc_loop_foldl:
  "unat packet_size \<le> length p \<Longrightarrow> j \<le> packet_size \<Longrightarrow>
   crc_loop p packet_size j acc
     = Inr (foldl crc_update acc (drop (unat j) (take (unat packet_size) p)))"
proof (induction "unat packet_size - unat j" arbitrary: j acc)
  case 0
  then have "unat packet_size \<le> unat j"
    by simp
  then have "\<not> j < packet_size"
    by (simp add: word_less_nat_alt)
  then show ?case
    using \<open>unat packet_size \<le> unat j\<close> by (simp add: crc_loop_exit)
next
  case (Suc k)
  then have lt: "unat j < unat packet_size"
    by simp
  then have less: "j < packet_size"
    by (simp add: word_less_nat_alt)
  from lt Suc.prems(1) have inb: "unat j < length p"
    by simp
  have suc: "unat (j + 1) = Suc (unat j)"
    using less by (rule unat_succ_below)
  have le: "j + 1 \<le> packet_size"
    using less by (rule inc_le)
  have k: "k = unat packet_size - unat (j + 1)"
    using Suc.hyps(2) suc by simp
  have "drop (unat j) (take (unat packet_size) p)
      = p ! unat j # drop (Suc (unat j)) (take (unat packet_size) p)"
    using lt inb by (simp add: Cons_nth_drop_Suc [symmetric])
  then show ?case
    using crc_loop_step [OF less inb, of acc] Suc.hyps(1) [OF k Suc.prems(1) le] suc by simp
qed

section \<open>The entries of \<open>crc_table\<close>\<close>

lemma funpow_8: "(f ^^ 8) x = f (f (f (f (f (f (f (f x)))))))"
  by (simp add: numeral_eq_Suc)

lemma upt_256: "[0..<256] = 0 # 1 # [2..<256]"
  by (simp add: upt_conv_Cons)

lemma crc_table_generated: "map crc_entry [0..<256] = crc_table"
  unfolding upt_256 by (simp add: crc_table_def crc_entry_def crc_round_def funpow_8)

section \<open>The objects through their statements\<close>

lemma access_exec_same: "fst (access_exec d s) = d"
  by (cases s) simp_all

lemma access_run_same: "access_run d ss = d"
  by (induction ss arbitrary: d) (simp_all add: access_exec_same)

lemma motor_exec_frame: "motor_exec m s = m\<lparr>motorID := motorID (motor_exec m s)\<rparr>"
  by (cases s) (simp_all add: setID_def)

lemma motor_run_frame: "motor_run m ss = m\<lparr>motorID := motorID (motor_run m ss)\<rparr>"
proof (induction ss arbitrary: m)
  case Nil
  show ?case by simp
next
  case (Cons s ss)
  have "motor_run (motor_exec m s) ss
      = (motor_exec m s)\<lparr>motorID := motorID (motor_run (motor_exec m s) ss)\<rparr>"
    by (rule Cons.IH)
  also have "\<dots> = m\<lparr>motorID := motorID (motor_run (motor_exec m s) ss)\<rparr>"
    by (cases s) (simp_all add: setID_def)
  finally show ?case by simp
qed

lemma motor_run_append: "motor_run m (ss @ ts) = motor_run (motor_run m ss) ts"
  by (induction ss arbitrary: m) simp_all

lemma motor_run_reads: "\<not> list_ex writes_motorID ss \<Longrightarrow> motor_run m ss = m"
proof (induction ss arbitrary: m)
  case Nil
  show ?case by simp
next
  case (Cons s ss)
  from Cons.prems have "\<not> writes_motorID s" and rest: "\<not> list_ex writes_motorID ss"
    by simp_all
  then obtain x where "s = ReadMember x"
    by (cases s) simp_all
  with rest show ?case
    by (simp add: Cons.IH)
qed

text \<open>The destructor of an envelope whose array is live releases that array and nothing else.\<close>

lemma DynamixelPacket_dtor_releases:
  "packet pk \<noteq> 0 \<Longrightarrow> h (packet pk) = Some bytes \<Longrightarrow>
   DynamixelPacket_dtor h pk = Inr (h(packet pk := None))"
  by (simp add: DynamixelPacket_dtor_def delete_array_def)


section \<open>The wire framing constants\<close>

text \<open>
  C4: the framing constants have the values of the protocol: the two headers, the
  minimum lengths 12, 5 and 5, the instruction codes 0x03, 0x04 (the enumerator after
  the write instruction) and 0x55, the alert bit 0x80 and the offsets 5, 6, 7 and 8.
\<close>

theorem wire_framing_constants:
  "v1Header = [0xFF, 0xFF] \<and> v2Header = [0xFF, 0xFF, 0xFD, 0x00]
   \<and> minPacketLenght = 12 \<and> minInstructionLength = 5 \<and> minResponseLength = 5
   \<and> writeInstruction = 0x03 \<and> readInstruction = 0x04
   \<and> readInstruction = writeInstruction + 1 \<and> statusInstruction = 0x55
   \<and> alertBit = 0x80
   \<and> lengthLSBPos = 5 \<and> lengthMSBPos = 6 \<and> instructionPos = 7
   \<and> responseParameterStart = 8"
  by (simp add: v1Header_def v2Header_def minPacketLenght_def minInstructionLength_def
      minResponseLength_def writeInstruction_def readInstruction_def statusInstruction_def
      alertBit_def lengthLSBPos_def lengthMSBPos_def instructionPos_def
      responseParameterStart_def)

section \<open>The CRC of protocol 2\<close>

text \<open>
  C1: for every buffer and every \<open>packet_size\<close> that stays inside it, \<open>crc_compute\<close>
  returns the accumulator of the table-driven recurrence, started from 0 and run over
  the first \<open>packet_size\<close> bytes of the buffer.
\<close>

theorem crc_compute_table_recurrence:
  "unat packet_size \<le> length p \<Longrightarrow>
   crc_compute p packet_size = Inr (crc_recurrence (take (unat packet_size) p))"
  using crc_loop_foldl [of packet_size p 0 0] by (simp add: crc_compute_def crc_recurrence_def)

theorem crc_compute_table_recurrence_witness:
  "unat (10 :: u16) \<le> length [0xFF, 0xFF, 0xFD, 0x00, 0x01, 0x00, 0x04, 0x02, 0x1E, 0x00 :: u8]
   \<and> crc_compute [0xFF, 0xFF, 0xFD, 0x00, 0x01, 0x00, 0x04, 0x02, 0x1E, 0x00] 10
       = Inr (crc_recurrence (take (unat (10 :: u16))
           [0xFF, 0xFF, 0xFD, 0x00, 0x01, 0x00, 0x04, 0x02, 0x1E, 0x00]))
   \<and> crc_compute [0xFF, 0xFF, 0xFD, 0x00, 0x01, 0x00, 0x04, 0x02, 0x1E, 0x00] 10 = Inr 0x30E7"
proof -
  let ?p = "[0xFF, 0xFF, 0xFD, 0x00, 0x01, 0x00, 0x04, 0x02, 0x1E, 0x00] :: u8 list"
  have h: "unat (10 :: u16) \<le> length ?p"
    by simp
  have r: "crc_compute ?p 10 = Inr (crc_recurrence (take (unat (10 :: u16)) ?p))"
    using h by (rule crc_compute_table_recurrence)
  have v: "crc_recurrence (take (unat (10 :: u16)) ?p) = 0x30E7"
    by (simp add: crc_recurrence_def crc_update_def crc_table_def)
  from h r v show ?thesis
    by simp
qed

text \<open>
  C10: for every index \<open>i\<close> from 0 to 255, the entry \<open>crc_table[i]\<close> is the one generated
  from the polynomial 0x8005, most significant bit first: eight rounds from \<open>i << 8\<close>,
  each shifting left by one and combining with 0x8005 when the bit shifted out was 1.
\<close>

theorem crc_table_polynomial_8005:
  "i < 256 \<Longrightarrow> crc_table ! i = crc_entry i"
proof -
  assume "i < 256"
  then have "map crc_entry [0..<256] ! i = crc_entry i"
    by (simp only: nth_map length_upt nth_upt) simp
  then show ?thesis
    by (simp only: crc_table_generated)
qed

theorem crc_table_polynomial_8005_witness:
  "(37 :: nat) < 256 \<and> crc_table ! 37 = crc_entry 37 \<and> crc_entry 37 = 0x80DD"
proof -
  have h: "(37 :: nat) < 256"
    by simp
  have v: "crc_entry 37 = 0x80DD"
    by (simp add: crc_entry_def crc_round_def funpow_8)
  from h crc_table_polynomial_8005 [OF h] v show ?thesis
    by simp
qed

section \<open>The checksum of protocol 1\<close>

text \<open>
  C2, as amended: for every buffer and every \<open>packet_size\<close> that stays inside it,
  \<open>v1Checksum\<close> returns \<open>~sum & 0xFF\<close> for the sum of the first \<open>packet_size\<close> bytes, and
  the sum of these bytes followed by the checksum is 0xFF modulo 256.
\<close>

theorem v1Checksum_ones_complement:
  "unat packet_size \<le> length p \<Longrightarrow>
   v1Checksum p packet_size
     = Inr (word_of_int (NOT (byte_sum (take (unat packet_size) p)) AND 0xFF))
   \<and> byte_sum (take (unat packet_size) p
         @ [word_of_int (NOT (byte_sum (take (unat packet_size) p)) AND 0xFF)]) mod 256 = 0xFF"
  by (simp add: v1Checksum_value byte_sum_append byte_sum_Cons byte_sum_Nil
      uint_complement complement_sum del: uint_word_of_int_eq)

theorem v1Checksum_ones_complement_witness:
  "unat (5 :: u16) \<le> length [0xFF, 0xFF, 0x01, 0x02, 0x03 :: u8]
   \<and> v1Checksum [0xFF, 0xFF, 0x01, 0x02, 0x03] 5 = Inr 0xFB
   \<and> byte_sum ([0xFF, 0xFF, 0x01, 0x02, 0x03] @ [0xFB]) mod 256 = 0xFF"
proof -
  let ?p = "[0xFF, 0xFF, 0x01, 0x02, 0x03] :: u8 list"
  have h: "unat (5 :: u16) \<le> length ?p"
    by simp
  have s: "byte_sum (take (unat (5 :: u16)) ?p) = 516"
    by (simp add: byte_sum_def)
  have c: "(word_of_int (NOT (516 :: int) AND 0xFF) :: u8) = 0xFB"
    by (simp add: not_and_255)
  from h v1Checksum_ones_complement [OF h] show ?thesis
    by (simp only: s c) simp
qed

text \<open>
  The claim C2 as the specification words it ends in a sum of 0 modulo 256. On the
  specification's own sequence the checksum is 0xFB and the extended sum is 0x2FF,
  which is 0xFF modulo 256.
\<close>

theorem v1Checksum_extended_sum_not_zero:
  "v1Checksum [0xFF, 0xFF, 0x01, 0x02, 0x03] 5 = Inr 0xFB
   \<and> byte_sum ([0xFF, 0xFF, 0x01, 0x02, 0x03] @ [0xFB]) mod 256 \<noteq> 0"
proof -
  let ?p = "[0xFF, 0xFF, 0x01, 0x02, 0x03] :: u8 list"
  have h: "unat (5 :: u16) \<le> length ?p"
    by simp
  have s: "byte_sum (take (unat (5 :: u16)) ?p) = 516"
    by (simp add: byte_sum_def)
  have c: "(word_of_int (NOT (516 :: int) AND 0xFF) :: u8) = 0xFB"
    by (simp add: not_and_255)
  have "v1Checksum ?p 5 = Inr 0xFB"
    using v1Checksum_value [OF h] by (simp only: s c)
  moreover have "byte_sum (?p @ [0xFB]) mod 256 \<noteq> 0"
    by (simp add: byte_sum_def)
  ultimately show ?thesis
    by (rule conjI)
qed

text \<open>
  C9: for every buffer and every \<open>packet_size\<close> that stays inside it, \<open>v1Checksum\<close>
  returns a byte \<open>c\<close> with \<open>c = 0xFF - (sum mod 256)\<close> and \<open>(sum + c) mod 256 = 0xFF\<close>, and
  two calls whose sums agree modulo 256 return the same byte. The sum always fits the
  accumulator (\<open>byte_sum_fits\<close>).
\<close>

theorem v1Checksum_sum_mod_256:
  "unat packet_size \<le> length p \<Longrightarrow>
   (case v1Checksum p packet_size of
      Inl e \<Rightarrow> False
    | Inr c \<Rightarrow>
        uint c = 0xFF - byte_sum (take (unat packet_size) p) mod 256
        \<and> (byte_sum (take (unat packet_size) p) + uint c) mod 256 = 0xFF)
   \<and> (unat packet_size' \<le> length p'
        \<and> byte_sum (take (unat packet_size') p') mod 256
            = byte_sum (take (unat packet_size) p) mod 256
      \<longrightarrow> v1Checksum p' packet_size' = v1Checksum p packet_size)"
proof -
  assume h: "unat packet_size \<le> length p"
  let ?s = "byte_sum (take (unat packet_size) p)"
  let ?s' = "byte_sum (take (unat packet_size') p')"
  have v: "v1Checksum p packet_size = Inr (word_of_int (255 - ?s mod 256))"
    using v1Checksum_value [OF h] by (simp only: not_and_255)
  have u: "uint (word_of_int (255 - ?s mod 256) :: u8) = 255 - ?s mod 256"
    using uint_complement [of ?s] by (simp only: not_and_255)
  have first: "case v1Checksum p packet_size of
      Inl e \<Rightarrow> False
    | Inr c \<Rightarrow> uint c = 0xFF - ?s mod 256 \<and> (?s + uint c) mod 256 = 0xFF"
    by (simp only: v u sum.case complement_sum)
  have second: "v1Checksum p' packet_size' = v1Checksum p packet_size"
    if h': "unat packet_size' \<le> length p'" and eq: "?s' mod 256 = ?s mod 256"
  proof -
    have "v1Checksum p' packet_size' = Inr (word_of_int (255 - ?s' mod 256))"
      using v1Checksum_value [OF h'] by (simp only: not_and_255)
    then show ?thesis
      by (simp only: v eq)
  qed
  from first second show ?thesis
    by blast
qed

theorem v1Checksum_sum_mod_256_witness:
  "unat (5 :: u16) \<le> length [0xFF, 0xFF, 0x01, 0x02, 0x03 :: u8]
   \<and> unat (1 :: u16) \<le> length [0x04 :: u8]
   \<and> byte_sum (take (unat (1 :: u16)) [0x04]) mod 256
       = byte_sum (take (unat (5 :: u16)) [0xFF, 0xFF, 0x01, 0x02, 0x03]) mod 256
   \<and> v1Checksum [0x04] 1 = v1Checksum [0xFF, 0xFF, 0x01, 0x02, 0x03] 5
   \<and> (case v1Checksum [0xFF, 0xFF, 0x01, 0x02, 0x03] 5 of
        Inl e \<Rightarrow> False
      | Inr c \<Rightarrow> uint c = 0xFF - 516 mod 256 \<and> (516 + uint c) mod 256 = 0xFF)"
proof -
  let ?p = "[0xFF, 0xFF, 0x01, 0x02, 0x03] :: u8 list"
  have h: "unat (5 :: u16) \<le> length ?p"
    by simp
  have h': "unat (1 :: u16) \<le> length [0x04 :: u8]"
    by simp
  have s: "byte_sum (take (unat (5 :: u16)) ?p) = 516"
    by (simp add: byte_sum_def)
  have s': "byte_sum (take (unat (1 :: u16)) [0x04]) = 4"
    by (simp add: byte_sum_def)
  from h h' v1Checksum_sum_mod_256 [OF h, of 1 "[0x04]"] show ?thesis
    by (simp only: s s') simp
qed

section \<open>Neither function fails inside the buffer\<close>

text \<open>
  C6: \<open>v1Checksum\<close> and \<open>crc_compute\<close> return a value for every \<open>packet_size\<close> that stays
  inside the buffer, and for \<open>packet_size = 0\<close> they return the checksum of the empty
  range whatever the buffer is: 0xFF and 0x0000.
\<close>

theorem checksums_cannot_fail:
  "(unat packet_size \<le> length p \<longrightarrow>
      (\<exists>c. v1Checksum p packet_size = Inr c) \<and> (\<exists>c. crc_compute p packet_size = Inr c))
   \<and> v1Checksum p 0 = Inr 0xFF \<and> crc_compute p 0 = Inr 0x0000"
proof -
  have "\<exists>c. v1Checksum p packet_size = Inr c" if "unat packet_size \<le> length p"
    using v1Checksum_value [OF that] by blast
  moreover have "\<exists>c. crc_compute p packet_size = Inr c" if "unat packet_size \<le> length p"
    using crc_loop_foldl [of packet_size p 0 0] that by (simp add: crc_compute_def)
  moreover have "v1Checksum p 0 = Inr 0xFF"
    by (simp add: v1Checksum_def v1_loop_exit)
  moreover have "crc_compute p 0 = Inr 0x0000"
    by (simp add: crc_compute_def crc_loop_exit)
  ultimately show ?thesis
    by blast
qed

theorem checksums_cannot_fail_witness:
  "unat (3 :: u16) \<le> length [0x01, 0x02, 0x03 :: u8]
   \<and> (\<exists>c. v1Checksum [0x01, 0x02, 0x03] 3 = Inr c)
   \<and> (\<exists>c. crc_compute [0x01, 0x02, 0x03] 3 = Inr c)
   \<and> v1Checksum [0x01, 0x02, 0x03] 0 = Inr 0xFF
   \<and> crc_compute [0x01, 0x02, 0x03] 0 = Inr 0x0000"
proof -
  have h: "unat (3 :: u16) \<le> length [0x01, 0x02, 0x03 :: u8]"
    by simp
  from h checksums_cannot_fail [of 3 "[0x01, 0x02, 0x03]"] show ?thesis
    by blast
qed

section \<open>The register access descriptor\<close>

text \<open>
  The claim C5 asks \<open>length >= 1\<close> of every constructed descriptor. The constructor
  takes any \<open>uint8_t\<close> as the size and stores it: with size 0 the length is 0.
\<close>

theorem DynamixelAccessData_length_zero:
  "\<not> 1 \<le> uint (length' (DynamixelAccessData_ctor 0x1E 0x00 0))"
  by (simp add: DynamixelAccessData_ctor_def)

text \<open>
  C5, as amended: a constructed descriptor holds the three bytes given to its
  constructor, where the length is any byte, 0 included, and after any statements on
  the descriptor its members are the same and every read returns the byte given to the
  constructor.
\<close>

theorem DynamixelAccessData_fields_fixed:
  "address (access_run (DynamixelAccessData_ctor addressLSB addressMSB size') stmts)
     = [addressLSB, addressMSB]
   \<and> length' (access_run (DynamixelAccessData_ctor addressLSB addressMSB size') stmts) = size'
   \<and> snd (access_exec (access_run (DynamixelAccessData_ctor addressLSB addressMSB size') stmts)
        (ReadAddress 0)) = Inr addressLSB
   \<and> snd (access_exec (access_run (DynamixelAccessData_ctor addressLSB addressMSB size') stmts)
        (ReadAddress 1)) = Inr addressMSB
   \<and> snd (access_exec (access_run (DynamixelAccessData_ctor addressLSB addressMSB size') stmts)
        ReadLength) = Inr size'"
  by (simp add: access_run_same DynamixelAccessData_ctor_def read_at_def)

section \<open>The motor register map\<close>

text \<open>
  The claim C7 lets \<open>motorID\<close> change through the set-ID operation only. The member is
  public and not \<open>const\<close>: on a map constructed with identifier 1, the assignment
  \<open>m.motorID = 7\<close> and the store of 7 through a pointer to the member each change it,
  and neither is a call of the set-ID operation.
\<close>

theorem DynamixelMotorData_motorID_written_directly:
  "\<not> list_ex is_setID [AssignMotorID 7]
   \<and> motorID (DynamixelMotorData_ctor 1 30 31 32 33 34 35 36 37 (2 :: int) 3 4) = 1
   \<and> motorID (motor_run (DynamixelMotorData_ctor 1 30 31 32 33 34 35 36 37 (2 :: int) 3 4)
        [AssignMotorID 7]) = 7
   \<and> \<not> list_ex is_setID [ReadMember MotorID, StoreMotorID 7]
   \<and> motorID (motor_run (DynamixelMotorData_ctor 1 30 31 32 33 34 35 36 37 (2 :: int) 3 4)
        [ReadMember MotorID, StoreMotorID 7]) = 7"
  by (simp add: DynamixelMotorData_ctor_def)

text \<open>
  C7, as amended: \<open>motorID\<close> is the only member of a \<open>DynamixelMotorData\<close> that changes
  after the construction. After any statements on the object, the eight descriptor
  references and the three conversion factors are the ones it had before; \<open>motorID\<close> is
  the one it had before when no statement writes the member; and every write of the
  member, by the set-ID operation, by an assignment or by a store through a pointer,
  leaves the value written in \<open>motorID\<close>.
\<close>

theorem DynamixelMotorData_only_motorID_changes:
  "id' (motor_run m stmts) = id' m
   \<and> led (motor_run m stmts) = led m
   \<and> torqueEnable (motor_run m stmts) = torqueEnable m
   \<and> currentTorque (motor_run m stmts) = currentTorque m
   \<and> goalAngle (motor_run m stmts) = goalAngle m
   \<and> currentAngle (motor_run m stmts) = currentAngle m
   \<and> goalVelocity (motor_run m stmts) = goalVelocity m
   \<and> currentVelocity (motor_run m stmts) = currentVelocity m
   \<and> valueToTorque (motor_run m stmts) = valueToTorque m
   \<and> valueToAngle (motor_run m stmts) = valueToAngle m
   \<and> valueToVelocity (motor_run m stmts) = valueToVelocity m
   \<and> (\<not> list_ex writes_motorID stmts \<longrightarrow> motorID (motor_run m stmts) = motorID m)
   \<and> motorID (motor_run m (stmts @ [SetID v])) = v
   \<and> motorID (motor_run m (stmts @ [AssignMotorID v])) = v
   \<and> motorID (motor_run m (stmts @ [StoreMotorID v])) = v"
proof -
  have frame: "motor_run m stmts = m\<lparr>motorID := motorID (motor_run m stmts)\<rparr>"
    by (rule motor_run_frame)
  have a: "id' (motor_run m stmts) = id' m" "led (motor_run m stmts) = led m"
    "torqueEnable (motor_run m stmts) = torqueEnable m"
    "currentTorque (motor_run m stmts) = currentTorque m"
    by (subst frame, simp)+
  have b: "goalAngle (motor_run m stmts) = goalAngle m"
    "currentAngle (motor_run m stmts) = currentAngle m"
    "goalVelocity (motor_run m stmts) = goalVelocity m"
    "currentVelocity (motor_run m stmts) = currentVelocity m"
    by (subst frame, simp)+
  have c: "valueToTorque (motor_run m stmts) = valueToTorque m"
    "valueToAngle (motor_run m stmts) = valueToAngle m"
    "valueToVelocity (motor_run m stmts) = valueToVelocity m"
    by (subst frame, simp)+
  have d: "\<not> list_ex writes_motorID stmts \<longrightarrow> motorID (motor_run m stmts) = motorID m"
    by (simp add: motor_run_reads)
  have e: "motorID (motor_run m (stmts @ [SetID v])) = v"
    "motorID (motor_run m (stmts @ [AssignMotorID v])) = v"
    "motorID (motor_run m (stmts @ [StoreMotorID v])) = v"
    by (simp_all add: motor_run_append setID_def)
  from a b c d e show ?thesis
    by simp
qed

theorem DynamixelMotorData_only_motorID_changes_witness:
  "\<not> list_ex writes_motorID [ReadMember MotorID, ReadMember GoalAngle]
   \<and> motorID (motor_run
        (DynamixelMotorData_ctor 1 30 31 32 33 34 35 36 37 (2 :: int) 3 4)
        [ReadMember MotorID, ReadMember GoalAngle]) = 1
   \<and> motorID (motor_run
        (DynamixelMotorData_ctor 1 30 31 32 33 34 35 36 37 (2 :: int) 3 4)
        ([ReadMember MotorID, ReadMember GoalAngle] @ [SetID 7])) = 7
   \<and> goalAngle (motor_run
        (DynamixelMotorData_ctor 1 30 31 32 33 34 35 36 37 (2 :: int) 3 4)
        [ReadMember MotorID, ReadMember GoalAngle]) = 34"
proof -
  let ?m = "DynamixelMotorData_ctor 1 30 31 32 33 34 35 36 37 (2 :: int) 3 4"
  let ?ss = "[ReadMember MotorID, ReadMember GoalAngle]"
  have h: "\<not> list_ex writes_motorID ?ss"
    by simp
  have m: "motorID ?m = 1" "goalAngle ?m = 34"
    by (simp_all add: DynamixelMotorData_ctor_def)
  from h DynamixelMotorData_only_motorID_changes [of ?m ?ss 7] m show ?thesis
    by simp
qed

section \<open>The packet envelope\<close>

text \<open>
  The claim C3 asks the construction to fail when \<open>packetSize\<close> is below the minimum
  framing length. The constructor with length 0, below \<open>minPacketLenght\<close>, makes the
  envelope all the same.
\<close>

theorem DynamixelPacket_ctor_below_minimum:
  "uint (0 :: u8) < minPacketLenght
   \<and> DynamixelPacket_ctor2 16 0 = \<lparr>packet = 16, packetSize = 0, responseSize = 0\<rparr>"
  by (simp add: minPacketLenght_def DynamixelPacket_ctor2_def)

text \<open>
  C3, as amended: the construction of a \<open>DynamixelPacket\<close> checks no size and always
  makes the envelope: its members are the pointer and the lengths given, whatever the
  length is, and \<open>responseSize\<close> is 0 when no response length is given.
\<close>

theorem DynamixelPacket_ctor_stores_arguments:
  "packet (DynamixelPacket_ctor2 p len) = p
   \<and> packetSize (DynamixelPacket_ctor2 p len) = len
   \<and> responseSize (DynamixelPacket_ctor2 p len) = 0
   \<and> packet (DynamixelPacket_ctor3 p len responseLength) = p
   \<and> packetSize (DynamixelPacket_ctor3 p len responseLength) = len
   \<and> responseSize (DynamixelPacket_ctor3 p len responseLength) = responseLength"
  by (simp add: DynamixelPacket_ctor2_def DynamixelPacket_ctor3_def)

text \<open>
  C8: a copy of an envelope holds the pointer of the original. With one array of 12
  bytes at address 16 in the free store, the destructor of the copy releases the array,
  and the destructor of the original then deletes an array that is no longer there.
\<close>

theorem DynamixelPacket_copy_deletes_twice:
  "packet (DynamixelPacket_copy (DynamixelPacket_ctor2 16 12)) = packet (DynamixelPacket_ctor2 16 12)
   \<and> DynamixelPacket_dtor [16 \<mapsto> replicate 12 0] (DynamixelPacket_copy (DynamixelPacket_ctor2 16 12))
       = Inr Map.empty
   \<and> DynamixelPacket_dtor Map.empty (DynamixelPacket_ctor2 16 12) = Inl InvalidDelete"
  by (simp add: DynamixelPacket_copy_def DynamixelPacket_ctor2_def DynamixelPacket_dtor_def
      delete_array_def)

end
